theory Spec2Isabelle
  imports Complex_Main "HOL-Library.Log_Nat" "HOL-Library.Char_ord" "HOL-Library.List_Lexorder"
begin

section \<open>Python values used by the two monitors\<close>

text \<open>
  The repository holds two variants of one curses dashboard, \<^verbatim>\<open>another_monitor.py\<close> and
  \<^verbatim>\<open>system_monitor.py\<close>. Definitions shared by both keep the source's name; where the
  variants differ the definition carries the suffix \<open>_am\<close> or \<open>_sm\<close>.

  Byte counts (resident memory, bytes read and written, disk capacity) are Python ints,
  modelled by \<open>int\<close>.
  A Python float is an IEEE binary64 number and is modelled by the rational it denotes.
  Every float operation of the sources is the exact operation followed by \<open>fl\<close>, rounding
  to the nearest double, ties to even. Infinities and NaN are outside the model; the
  true division of two ints raises \<open>OverflowError\<close> where the rounded quotient leaves the
  range of finite doubles, as CPython does.
\<close>

datatype error =
  OverflowError | ZeroDivisionError | ValueError | TypeError
  | CursesError | NoSuchProcess | AccessDenied | ZombieProcess

definition bind_err :: "error + 'a \<Rightarrow> ('a \<Rightarrow> error + 'b) \<Rightarrow> error + 'b" where
  \<comment> \<open>sequencing: an exception raised by the first part leaves through the second\<close>
  "bind_err m f = (case m of Inl e \<Rightarrow> Inl e | Inr x \<Rightarrow> f x)"

fun map_err :: "('a \<Rightarrow> error + 'b) \<Rightarrow> 'a list \<Rightarrow> error + 'b list" where
  "map_err f [] = Inr []"
| "map_err f (x # xs) =
     bind_err (f x) (\<lambda>y. bind_err (map_err f xs) (\<lambda>ys. Inr (y # ys)))"

definition round_half_even :: "rat \<Rightarrow> int" where
  "round_half_even x =
     (let f = \<lfloor>x\<rfloor>; d = x - of_int f
      in if d < 1 / 2 then f else if 1 / 2 < d then f + 1 else if even f then f else f + 1)"

definition ilog2 :: "rat \<Rightarrow> int" where
  \<comment> \<open>for \<open>0 < a\<close>, the exponent \<open>e\<close> with \<open>2 powi e \<le> a < 2 powi (e + 1)\<close>\<close>
  "ilog2 a = (if 1 \<le> a then bitlen \<lfloor>a\<rfloor> - 1 else - bitlen (\<lceil>1 / a\<rceil> - 1))"

definition fl :: "rat \<Rightarrow> rat" where
  \<comment> \<open>round to nearest binary64, ties to even: 53 significant bits, least exponent \<open>-1074\<close>\<close>
  "fl q =
     (if q = 0 then 0
      else let a = \<bar>q\<bar>; e = max (ilog2 a - 52) (- 1074)
           in sgn q * of_int (round_half_even (a / 2 powi e)) * 2 powi e)"

subsection \<open>Text of numbers\<close>

definition digit_char :: "int \<Rightarrow> char" where
  "digit_char d = ''0123456789'' ! nat (d mod 10)"

function str_nat :: "int \<Rightarrow> string" where
  \<comment> \<open>the decimal digits of an int that is not negative\<close>
  "str_nat n = (if n < 10 then [digit_char n] else str_nat (n div 10) @ [digit_char n])"
  by pat_completeness auto
termination
  by (relation "measure nat") auto

declare str_nat.simps [simp del]

definition str_int :: "int \<Rightarrow> string" where
  "str_int i = (if i < 0 then ''-'' @ str_nat (- i) else str_nat i)"

definition fmt2 :: "rat \<Rightarrow> string" where
  \<comment> \<open>the format specification \<open>.2f\<close>: two decimals, correctly rounded, ties to even\<close>
  "fmt2 x =
     (let c = round_half_even (\<bar>x\<bar> * 100)
      in (if x < 0 then ''-'' else '''') @ str_nat (c div 100) @ ''.'' @
         [digit_char (c div 10), digit_char c])"

datatype pynum = PyInt int | PyFloat rat

fun num_val :: "pynum \<Rightarrow> rat" where
  "num_val (PyInt n) = of_int n"
| "num_val (PyFloat x) = x"

definition finite_double :: "rat \<Rightarrow> bool" where
  \<comment> \<open>a rounded value below \<open>2 ^ 1024\<close> in magnitude is a finite double\<close>
  "finite_double x \<longleftrightarrow> \<bar>x\<bar> < of_int (2 ^ 1024)"

fun truediv :: "pynum \<Rightarrow> int \<Rightarrow> error + pynum" where
  \<comment> \<open>Python's \<open>/\<close> by an int that converts to a double exactly\<close>
  "truediv (PyInt n) d =
     (if d = 0 then Inl ZeroDivisionError
      else if finite_double (fl (of_int n / of_int d)) then Inr (PyFloat (fl (of_int n / of_int d)))
      else Inl OverflowError)"
| "truediv (PyFloat x) d =
     (if d = 0 then Inl ZeroDivisionError else Inr (PyFloat (fl (x / of_int d))))"

fun format_2f :: "pynum \<Rightarrow> error + string" where
  \<comment> \<open>\<open>f"{v:.2f}"\<close>: an int is converted to a double first\<close>
  "format_2f (PyInt n) =
     (if finite_double (fl (of_int n)) then Inr (fmt2 (fl (of_int n))) else Inl OverflowError)"
| "format_2f (PyFloat x) = Inr (fmt2 x)"

section \<open>get_size (both variants, lines 5-11)\<close>

text \<open>
  \<^verbatim>\<open>
  def get_size(bytes, suffix="B"):
      factor = 1024
      for unit in ["", "K", "M", "G", "T", "P"]:
          if bytes < factor:
              return f"{bytes:.2f}{unit}{suffix}"
          bytes /= factor
  \<close>
  A loop that runs out of units falls off the end of the function: the result is
  Python's \<open>None\<close>, here \<open>Inr None\<close>.
\<close>

fun get_size_loop :: "pynum \<Rightarrow> string list \<Rightarrow> string \<Rightarrow> error + string option" where
  "get_size_loop b [] suffix = Inr None"
| "get_size_loop b (unit # units) suffix =
     (if num_val b < 1024 then
        (case format_2f b of
           Inl e \<Rightarrow> Inl e
         | Inr s \<Rightarrow> Inr (Some (s @ unit @ suffix)))
      else (case truediv b 1024 of
              Inl e \<Rightarrow> Inl e
            | Inr b' \<Rightarrow> get_size_loop b' units suffix))"

definition units :: "string list" where
  "units = ['''', ''K'', ''M'', ''G'', ''T'', ''P'']"

definition get_size :: "int \<Rightarrow> error + string option" where
  "get_size bytes = get_size_loop (PyInt bytes) units ''B''"

section \<open>Strings\<close>

definition ljust :: "string \<Rightarrow> int \<Rightarrow> string" where
  \<comment> \<open>\<open>str.ljust\<close> and the format specification \<open><n\<close> for \<open>0 \<le> n\<close>\<close>
  "ljust s n = s @ replicate (nat n - length s) CHR '' ''"

definition py_slice_to :: "'a list \<Rightarrow> int \<Rightarrow> 'a list" where
  \<comment> \<open>\<open>xs[:k]\<close>: a negative \<open>k\<close> counts from the end of the list\<close>
  "py_slice_to xs k = (if k < 0 then take (nat (int (length xs) + k)) xs else take (nat k) xs)"

definition upper_char :: "char \<Rightarrow> char" where
  "upper_char c =
     (if CHR ''a'' \<le> c \<and> c \<le> CHR ''z'' then char_of (of_char c - (32::nat)) else c)"

definition upper :: "string \<Rightarrow> string" where
  "upper s = map upper_char s"

definition is_digit :: "char \<Rightarrow> bool" where
  "is_digit c \<longleftrightarrow> CHR ''0'' \<le> c \<and> c \<le> CHR ''9''"

definition is_space :: "char \<Rightarrow> bool" where
  \<comment> \<open>the ASCII characters that \<open>str.strip\<close> removes\<close>
  "is_space c \<longleftrightarrow>
     (let n = (of_char c :: nat) in (9 \<le> n \<and> n \<le> 13) \<or> (28 \<le> n \<and> n \<le> 32))"

definition strip :: "string \<Rightarrow> string" where
  "strip s = rev (dropWhile is_space (rev (dropWhile is_space s)))"

definition is_int_space :: "char \<Rightarrow> bool" where
  \<comment> \<open>the ASCII characters that \<open>int\<close> skips around a number: tab to carriage return, and
      the blank; the separators \<open>0x1C\<close> to \<open>0x1F\<close> are not among them\<close>
  "is_int_space c \<longleftrightarrow> (let n = (of_char c :: nat) in (9 \<le> n \<and> n \<le> 13) \<or> n = 32)"


definition isdigit :: "string \<Rightarrow> bool" where
  \<comment> \<open>\<open>str.isdigit\<close> on ASCII text\<close>
  "isdigit s \<longleftrightarrow> s \<noteq> [] \<and> list_all is_digit s"

definition digit_val :: "char \<Rightarrow> int" where
  "digit_val c = int (of_char c) - 48"

fun digits_val :: "int \<Rightarrow> string \<Rightarrow> int option" where
  \<comment> \<open>digits, single underscores allowed between two digits; called after a digit\<close>
  "digits_val acc [] = Some acc"
| "digits_val acc [c] = (if is_digit c then Some (acc * 10 + digit_val c) else None)"
| "digits_val acc (c # d # cs) =
     (if is_digit c then digits_val (acc * 10 + digit_val c) (d # cs)
      else if c = CHR ''_'' \<and> is_digit d then digits_val acc (d # cs)
      else None)"

definition py_int :: "string \<Rightarrow> error + int" where
  \<comment> \<open>\<open>int(s)\<close> on ASCII text: blanks skipped at both ends, an optional sign, decimal digits\<close>
  "py_int s =
     (let t = rev (dropWhile is_int_space (rev (dropWhile is_int_space s)));
          neg = (t \<noteq> [] \<and> hd t = CHR ''-'');
          u = (if t \<noteq> [] \<and> (hd t = CHR ''-'' \<or> hd t = CHR ''+'') then tl t else t)
      in if u = [] \<or> \<not> is_digit (hd u) then Inl ValueError
         else (case digits_val 0 u of
                 None \<Rightarrow> Inl ValueError
               | Some v \<Rightarrow> Inr (if neg then - v else v)))"

definition py_str :: "string option \<Rightarrow> string" where
  \<comment> \<open>a value that is a string or \<open>None\<close>, interpolated with no format specification\<close>
  "py_str v = (case v of None \<Rightarrow> ''None'' | Some s \<Rightarrow> s)"

definition format_ljust :: "string option \<Rightarrow> int \<Rightarrow> error + string" where
  \<comment> \<open>\<open>f"{v:<n}"\<close>: \<open>None\<close> accepts no format specification\<close>
  "format_ljust v n = (case v of None \<Rightarrow> Inl TypeError | Some s \<Rightarrow> Inr (ljust s n))"

section \<open>sorted\<close>

definition sorted_py :: "('a \<Rightarrow> 'k::linorder) \<Rightarrow> bool \<Rightarrow> 'a list \<Rightarrow> 'a list" where
  \<comment> \<open>\<open>sorted(xs, key=key, reverse=reverse)\<close>: a stable sort; with \<open>reverse\<close> the list is
      reversed, sorted and reversed again, so equal keys keep their order\<close>
  "sorted_py key reverse xs = (if reverse then rev (sort_key key (rev xs)) else sort_key key xs)"

section \<open>The metrics provider's samples\<close>

text \<open>
  \<open>psutil.process_iter\<close> yields one \<open>info\<close> dictionary per process. The name may be
  missing or empty, the I/O counters may be missing; pid, CPU percent and resident size
  are present, as in the specification's process sample.
\<close>

record io_counters =
  read_bytes :: int
  write_bytes :: int

record proc_info =
  info_pid :: int
  info_name :: "string option"
  info_cpu_percent :: rat
  info_rss :: int
  info_io_counters :: "io_counters option"

definition name_or_unknown :: "string option \<Rightarrow> string" where
  \<comment> \<open>\<open>process.info['name'] or "Unknown"\<close>\<close>
  "name_or_unknown n = (case n of None \<Rightarrow> ''Unknown'' | Some s \<Rightarrow> if s = [] then ''Unknown'' else s)"

section \<open>another_monitor.py: get_processes_info (lines 13-35)\<close>

text \<open>
  The row tuple \<open>(pid, name, cpu_percent, memory_usage, memory_percent, disk_usage,
  disk_bytes)\<close>, indices 0 to 6.
\<close>

record row_am =
  am_pid :: int
  am_name :: string
  am_cpu_percent :: rat
  am_memory_usage :: "string option"
  am_memory_percent :: int
  am_disk_usage :: "string option"
  am_disk_bytes :: int

definition make_row_am :: "proc_info \<Rightarrow> error + row_am" where
  "make_row_am process =
     bind_err (get_size (info_rss process)) (\<lambda>memory_usage.
     bind_err (case info_io_counters process of
                 None \<Rightarrow> Inr (Some ''0B'')
               | Some io \<Rightarrow> get_size (read_bytes io + write_bytes io)) (\<lambda>disk_usage.
     Inr \<lparr> am_pid = info_pid process,
           am_name = name_or_unknown (info_name process),
           am_cpu_percent = info_cpu_percent process,
           am_memory_usage = memory_usage,
           am_memory_percent = info_rss process,
           am_disk_usage = disk_usage,
           am_disk_bytes = (case info_io_counters process of
                              None \<Rightarrow> 0
                            | Some io \<Rightarrow> read_bytes io + write_bytes io) \<rparr>))"

definition get_processes_info_am :: "string \<Rightarrow> bool \<Rightarrow> proc_info list \<Rightarrow> error + row_am list" where
  \<comment> \<open>\<open>key_index = 2 if sort_by == "cpu" else 4\<close>: index 2 is \<open>cpu_percent\<close>, index 4 is
      \<open>memory_percent\<close>, the resident size in bytes\<close>
  "get_processes_info_am sort_by ascending procs =
     bind_err (map_err make_row_am procs) (\<lambda>processes.
     Inr (if sort_by = ''cpu'' then sorted_py am_cpu_percent (\<not> ascending) processes
          else sorted_py am_memory_percent (\<not> ascending) processes))"

section \<open>system_monitor.py: get_total_disk_io and get_processes_info (lines 13-53)\<close>

fun get_total_disk_io_loop :: "int \<Rightarrow> (error + io_counters) list \<Rightarrow> error + int" where
  \<comment> \<open>one entry per process: what \<open>proc.io_counters()\<close> returns or raises;
      \<open>ZombieProcess\<close> is a subclass of \<open>NoSuchProcess\<close>\<close>
  "get_total_disk_io_loop total_io [] = Inr total_io"
| "get_total_disk_io_loop total_io (Inr io # procs) =
     get_total_disk_io_loop (total_io + (read_bytes io + write_bytes io)) procs"
| "get_total_disk_io_loop total_io (Inl e # procs) =
     (if e = NoSuchProcess \<or> e = AccessDenied \<or> e = ZombieProcess
      then get_total_disk_io_loop total_io procs
      else Inl e)"

definition get_total_disk_io :: "(error + io_counters) list \<Rightarrow> error + int" where
  "get_total_disk_io procs = get_total_disk_io_loop 0 procs"

text \<open>
  The row tuple \<open>(pid, name, cpu_percent, memory_usage, disk_usage, process_io)\<close>,
  indices 0 to 5.
\<close>

record row_sm =
  sm_pid :: int
  sm_name :: string
  sm_cpu_percent :: rat
  sm_memory_usage :: "string option"
  sm_disk_usage :: string
  sm_process_io :: int

definition percent_usage :: "int \<Rightarrow> int \<Rightarrow> error + pynum" where
  \<comment> \<open>\<open>(process_io / total_io * 100) if total_io > 0 else 0\<close>\<close>
  "percent_usage process_io total_io =
     (if 0 < total_io then
        bind_err (truediv (PyInt process_io) total_io) (\<lambda>q. Inr (PyFloat (fl (num_val q * 100))))
      else Inr (PyInt 0))"

definition disk_usage_text :: "int \<Rightarrow> int \<Rightarrow> int \<Rightarrow> error + string" where
  \<comment> \<open>\<open>f"R: {get_size(read_bytes)} W: {get_size(write_bytes)} | %: {percent_usage:.2f}%"\<close>\<close>
  "disk_usage_text rd wr total_io =
     bind_err (percent_usage (rd + wr) total_io) (\<lambda>pct.
     bind_err (get_size rd) (\<lambda>r.
     bind_err (get_size wr) (\<lambda>w.
     bind_err (format_2f pct) (\<lambda>p.
     Inr (''R: '' @ py_str r @ '' W: '' @ py_str w @ '' | %: '' @ p @ ''%'')))))"

definition io_read :: "proc_info \<Rightarrow> int" where
  \<comment> \<open>\<open>read_bytes = io_counters.read_bytes if io_counters else 0\<close>\<close>
  "io_read process = (case info_io_counters process of None \<Rightarrow> 0 | Some io \<Rightarrow> read_bytes io)"

definition io_write :: "proc_info \<Rightarrow> int" where
  \<comment> \<open>\<open>write_bytes = io_counters.write_bytes if io_counters else 0\<close>\<close>
  "io_write process = (case info_io_counters process of None \<Rightarrow> 0 | Some io \<Rightarrow> write_bytes io)"

definition make_row_sm :: "int \<Rightarrow> proc_info \<Rightarrow> error + row_sm" where
  "make_row_sm total_io process =
     bind_err (get_size (info_rss process)) (\<lambda>memory_usage.
     bind_err (disk_usage_text (io_read process) (io_write process) total_io) (\<lambda>disk_usage.
     Inr \<lparr> sm_pid = info_pid process,
           sm_name = name_or_unknown (info_name process),
           sm_cpu_percent = info_cpu_percent process,
           sm_memory_usage = memory_usage,
           sm_disk_usage = disk_usage,
           sm_process_io = io_read process + io_write process \<rparr>))"

definition get_processes_info_sm ::
  "string \<Rightarrow> bool \<Rightarrow> (error + io_counters) list \<Rightarrow> proc_info list \<Rightarrow> error + row_sm list" where
  \<comment> \<open>\<open>key_index = 2 if sort_by == "cpu" else 4\<close>: index 2 is \<open>cpu_percent\<close>, index 4 is
      \<open>disk_usage\<close>, the formatted text (\<open>process_io\<close> is index 5)\<close>
  "get_processes_info_sm sort_by ascending io_calls procs =
     bind_err (get_total_disk_io io_calls) (\<lambda>total_io.
     bind_err (map_err (make_row_sm total_io) procs) (\<lambda>processes.
     Inr (if sort_by = ''cpu'' then sorted_py sm_cpu_percent (\<not> ascending) processes
          else sorted_py sm_disk_usage (\<not> ascending) processes)))"

section \<open>The terminal\<close>

text \<open>
  The curses window is the terminal boundary of the specification: \<open>getmaxyx\<close> gives its
  size, \<open>addstr\<close> paints text from a cell onwards, wrapping at the right margin.
  \<open>addstr\<close> raises \<open>curses.error\<close> when the start cell lies outside the window and when
  the text does not end before the window's last cell. The sources rely on this: they
  wrap their other draws in \<open>try: ... except curses.error: pass\<close>. The model keeps the
  list of the draws the window accepted.
\<close>

datatype attr = A_NORMAL | A_BOLD | COLOR_PAIR nat

record screen =
  scr_height :: int
  scr_width :: int
  scr_drawn :: "(int \<times> int \<times> string \<times> attr) list"

definition addstr :: "screen \<Rightarrow> int \<Rightarrow> int \<Rightarrow> string \<Rightarrow> attr \<Rightarrow> error + screen" where
  "addstr scr y x s a =
     (if y < 0 \<or> scr_height scr \<le> y \<or> x < 0 \<or> scr_width scr \<le> x then Inl CursesError
      else if (scr_height scr - y) * scr_width scr - x \<le> int (length s) then Inl CursesError
      else Inr (scr\<lparr>scr_drawn := scr_drawn scr @ [(y, x, s, a)]\<rparr>))"

section \<open>display_bar (another_monitor.py lines 37-41, system_monitor.py lines 55-59)\<close>

text \<open>
  \<^verbatim>\<open>
  def display_bar(stdscr, usage, label, y, width, max_value=100):
      bar_length = min(int((usage / max_value) * (width - 20)), width - 20)
      bar = "|" * bar_length
      stdscr.addstr(y, 0, f"{label}: [{bar:<{width - 20}}] {usage:.2f}%", curses.A_BOLD)
  \<close>
  \<open>another_monitor.py\<close> has the constant 100 in place of \<open>max_value\<close>. The usage is a
  float. A negative width in the format specification \<open><{width - 20}\<close> is a
  \<open>ValueError\<close>.
\<close>

definition py_trunc :: "rat \<Rightarrow> int" where
  \<comment> \<open>\<open>int(x)\<close> of a float: towards zero\<close>
  "py_trunc x = (if 0 \<le> x then \<lfloor>x\<rfloor> else \<lceil>x\<rceil>)"

definition bar_length :: "rat \<Rightarrow> int \<Rightarrow> int \<Rightarrow> error + int" where
  "bar_length usage width max_value =
     bind_err (truediv (PyFloat usage) max_value) (\<lambda>q.
     Inr (min (py_trunc (fl (num_val q * of_int (width - 20)))) (width - 20)))"

definition bar_text :: "rat \<Rightarrow> string \<Rightarrow> int \<Rightarrow> int \<Rightarrow> error + string" where
  "bar_text usage label width max_value =
     bind_err (bar_length usage width max_value) (\<lambda>n.
     let bar = replicate (nat n) CHR ''|''
     in if width - 20 < 0 then Inl ValueError
        else Inr (label @ '': ['' @ ljust bar (width - 20) @ ''] '' @ fmt2 usage @ ''%''))"

definition display_bar :: "screen \<Rightarrow> rat \<Rightarrow> string \<Rightarrow> int \<Rightarrow> int \<Rightarrow> int \<Rightarrow> error + screen" where
  "display_bar stdscr usage label y width max_value =
     bind_err (bar_text usage label width max_value) (\<lambda>text. addstr stdscr y 0 text A_BOLD)"

section \<open>monitor_processes: the usage bars\<close>

record disk_usage_info =
  du_total :: int
  du_used :: int
  du_percent :: rat

definition draw_bars_am :: "screen \<Rightarrow> rat \<Rightarrow> rat \<Rightarrow> disk_usage_info \<Rightarrow> error + screen" where
  \<comment> \<open>another_monitor.py lines 61-77: \<open>disk_usage_percent = disk_usage_info.percent\<close>\<close>
  "draw_bars_am stdscr cpu_usage memory_usage_percent disk =
     (let width = scr_width stdscr; disk_usage_percent = du_percent disk
      in bind_err (display_bar stdscr cpu_usage ''CPU Usage'' 0 width 100) (\<lambda>s1.
         bind_err (display_bar s1 memory_usage_percent ''Memory Usage'' 1 width 100) (\<lambda>s2.
         display_bar s2 disk_usage_percent ''Disk Usage'' 2 width 100)))"

definition total_disk_usage_percentage :: "(error + io_counters) list \<Rightarrow> int \<Rightarrow> error + rat" where
  \<comment> \<open>system_monitor.py lines 93-96:
      \<open>(get_total_disk_io() / psutil.disk_usage('/').total) * 100\<close>\<close>
  "total_disk_usage_percentage io_calls total_disk_capacity =
     bind_err (get_total_disk_io io_calls) (\<lambda>total_disk_io.
     bind_err (truediv (PyInt total_disk_io) total_disk_capacity) (\<lambda>q.
     Inr (fl (num_val q * 100))))"

definition draw_bars_sm ::
  "screen \<Rightarrow> rat \<Rightarrow> rat \<Rightarrow> (error + io_counters) list \<Rightarrow> disk_usage_info \<Rightarrow> error + screen" where
  \<comment> \<open>system_monitor.py lines 80-97\<close>
  "draw_bars_sm stdscr cpu_usage memory_usage_percent io_calls disk =
     (let height = scr_height stdscr; width = scr_width stdscr
      in bind_err (if 3 < height then
                     bind_err (display_bar stdscr cpu_usage ''CPU   '' 0 width 100) (\<lambda>s1.
                     display_bar s1 memory_usage_percent ''Memory'' 1 width 100)
                   else Inr stdscr) (\<lambda>s2.
         bind_err (total_disk_usage_percentage io_calls (du_total disk)) (\<lambda>pct.
         display_bar s2 pct ''Disk  '' 2 width 100)))"

section \<open>monitor_processes: the process table\<close>

definition header_start_row_am :: "int \<Rightarrow> int" where
  \<comment> \<open>\<open>6 + len(core_usages)\<close>\<close>
  "header_start_row_am n_cores = 6 + n_cores"

definition header_start_row_sm :: "int \<Rightarrow> int" where
  \<comment> \<open>\<open>9 + len(core_usages)\<close>\<close>
  "header_start_row_sm n_cores = 9 + n_cores"

definition max_displayable_processes :: "int \<Rightarrow> int \<Rightarrow> 'a list \<Rightarrow> int" where
  "max_displayable_processes height header_start_row processes =
     min (height - (header_start_row + 5)) (int (length processes))"

definition displayed_processes :: "int \<Rightarrow> int \<Rightarrow> 'a list \<Rightarrow> (int \<times> 'a) list" where
  \<comment> \<open>\<open>enumerate(processes[:max_displayable_processes], start=header_start_row + 2)\<close>:
      the rows the loop draws, each with its screen line\<close>
  "displayed_processes height header_start_row processes =
     (let shown = py_slice_to processes (max_displayable_processes height header_start_row processes)
      in zip (map (\<lambda>i. header_start_row + 2 + int i) [0 ..< length shown]) shown)"

definition row_color :: "rat \<Rightarrow> nat" where
  \<comment> \<open>the number of the colour pair chosen for a row, from its \<open>cpu_percent\<close>\<close>
  "row_color cpu_percent = (if 80 < cpu_percent then 1 else if 40 < cpu_percent then 2 else 3)"

datatype colour = COLOR_RED | COLOR_YELLOW | COLOR_GREEN | COLOR_BLACK

datatype severity = LOW | MODERATE | HIGH

definition init_pair :: "nat \<Rightarrow> (colour \<times> colour \<times> severity) option" where
  \<comment> \<open>the three \<open>curses.init_pair\<close> calls, each with the usage level its comment names\<close>
  "init_pair n =
     (if n = 1 then Some (COLOR_RED, COLOR_BLACK, HIGH)
      else if n = 2 then Some (COLOR_YELLOW, COLOR_BLACK, MODERATE)
      else if n = 3 then Some (COLOR_GREEN, COLOR_BLACK, LOW)
      else None)"

definition format_row ::
  "(rat \<Rightarrow> string) \<Rightarrow> int \<Rightarrow> int \<Rightarrow> string \<Rightarrow> rat \<Rightarrow> string option \<Rightarrow> string \<Rightarrow> error + string" where
  \<comment> \<open>\<open>f"{pid:<10}{name[:28]:<30}{cpu_percent:<10}{memory_usage:<10}{disk_usage}".ljust(width - 1)\<close>;
      \<open>float_text\<close> is Python's text of a float, which the model leaves open\<close>
  "format_row float_text width pid name cpu_percent memory_usage disk_usage =
     bind_err (format_ljust memory_usage 10) (\<lambda>m.
     Inr (ljust (ljust (str_int pid) 10 @ ljust (take 28 name) 30 @
                 ljust (float_text cpu_percent) 10 @ m @ disk_usage) (width - 1)))"

definition draw_row ::
  "(rat \<Rightarrow> string) \<Rightarrow> screen \<Rightarrow> int \<Rightarrow> int \<Rightarrow> string \<Rightarrow> rat \<Rightarrow> string option \<Rightarrow> string \<Rightarrow> error + screen" where
  \<comment> \<open>one pass of the loop body: the draw is inside \<open>try: ... except curses.error: pass\<close>,
      the formatting of its argument raises before \<open>addstr\<close> is entered\<close>
  "draw_row float_text stdscr idx pid name cpu_percent memory_usage disk_usage =
     bind_err (format_row float_text (scr_width stdscr) pid name cpu_percent memory_usage disk_usage)
       (\<lambda>text. case addstr stdscr idx 0 text (COLOR_PAIR (row_color cpu_percent)) of
                  Inl e \<Rightarrow> if e = CursesError then Inr stdscr else Inl e
                | Inr s \<Rightarrow> Inr s)"

fun draw_rows_am :: "(rat \<Rightarrow> string) \<Rightarrow> screen \<Rightarrow> (int \<times> row_am) list \<Rightarrow> error + screen" where
  \<comment> \<open>\<open>pid, name, cpu_percent, memory_usage, disk_usage, _, _ = process\<close> binds \<open>disk_usage\<close>
      to index 4 of the row, the resident size, an int: the last column is its digits\<close>
  "draw_rows_am float_text stdscr [] = Inr stdscr"
| "draw_rows_am float_text stdscr ((idx, process) # rest) =
     bind_err (draw_row float_text stdscr idx (am_pid process) (am_name process)
                 (am_cpu_percent process) (am_memory_usage process)
                 (str_int (am_memory_percent process)))
       (\<lambda>s. draw_rows_am float_text s rest)"

fun draw_rows_sm :: "(rat \<Rightarrow> string) \<Rightarrow> screen \<Rightarrow> (int \<times> row_sm) list \<Rightarrow> error + screen" where
  "draw_rows_sm float_text stdscr [] = Inr stdscr"
| "draw_rows_sm float_text stdscr ((idx, process) # rest) =
     bind_err (draw_row float_text stdscr idx (sm_pid process) (sm_name process)
                 (sm_cpu_percent process) (sm_memory_usage process) (sm_disk_usage process))
       (\<lambda>s. draw_rows_sm float_text s rest)"

section \<open>monitor_processes: the key handling\<close>

text \<open>
  The loop's local variables are the view state. One pass of the key handling takes the
  key code returned by \<open>getch\<close>, the outcome of the prompt (the text read by \<open>getstr\<close>,
  or the \<open>curses.error\<close> a terminal call of the prompt raised) and the process-control
  collaborator \<open>terminate\<close>, which stands for \<open>psutil.Process(pid).terminate()\<close> and
  returns or raises. The result is \<open>None\<close> when the loop is left with \<open>break\<close>.
  A \<open>curses.error\<close> is caught by the handler around the key handling. The text read
  is ASCII: \<open>int\<close>, \<open>str.isdigit\<close> and \<open>str.strip\<close> are modelled on such text only.
\<close>

definition ord :: "char \<Rightarrow> int" where
  "ord c = int (of_char c)"

record view_am =
  am_sort_by :: string
  am_ascending :: bool
  am_filter_pid :: "int option"
  am_last_message :: string

definition kill_process_am :: "(int \<Rightarrow> error + unit) \<Rightarrow> string \<Rightarrow> error + string" where
  \<comment> \<open>another_monitor.py lines 156-164: the new \<open>last_message\<close>\<close>
  "kill_process_am terminate kill_pid_input =
     (case bind_err (py_int kill_pid_input) (\<lambda>kill_pid.
             bind_err (terminate kill_pid) (\<lambda>_.
             Inr (''Process '' @ str_int kill_pid @ '' terminated successfully.''))) of
        Inr m \<Rightarrow> Inr m
      | Inl e \<Rightarrow>
          if e = ValueError \<or> e = NoSuchProcess \<or> e = ZombieProcess
          then Inr (''Error: Invalid PID '' @ kill_pid_input @ ''.'')
          else if e = AccessDenied
          then Inr (''Error: Access denied to kill PID '' @ kill_pid_input @ ''.'')
          else Inl e)"

definition handle_key_am ::
  "(int \<Rightarrow> error + unit) \<Rightarrow> int \<Rightarrow> error + string \<Rightarrow> view_am \<Rightarrow> error + view_am option" where
  \<comment> \<open>another_monitor.py lines 133-168\<close>
  "handle_key_am terminate key typed st =
     (if key = ord CHR ''q'' then Inr None
      else case
        (if key = ord CHR ''f'' then
           bind_err typed (\<lambda>pid_input.
           bind_err (if isdigit pid_input then map_sum id Some (py_int pid_input) else Inr None)
             (\<lambda>filter_pid. Inr (st\<lparr>am_filter_pid := filter_pid, am_last_message := ''''\<rparr>)))
         else if key = ord CHR ''s'' then
           (let sort_by = (if am_sort_by st = ''cpu'' then ''memory'' else ''cpu'')
            in Inr (st\<lparr>am_sort_by := sort_by, am_filter_pid := None,
                       am_last_message := ''Sorting by '' @ upper sort_by\<rparr>))
         else if key = ord CHR ''a'' then
           (let ascending = \<not> am_ascending st
            in Inr (st\<lparr>am_ascending := ascending,
                       am_last_message := ''Sorting in '' @
                         (if ascending then ''ascending'' else ''descending'') @ '' order''\<rparr>))
         else if key = ord CHR ''k'' then
           bind_err typed (\<lambda>kill_pid_input.
           bind_err (kill_process_am terminate kill_pid_input) (\<lambda>m.
           Inr (st\<lparr>am_last_message := m\<rparr>)))
         else Inr st)
      of Inr st' \<Rightarrow> Inr (Some st')
       | Inl e \<Rightarrow> if e = CursesError then Inr (Some st) else Inl e)"

record view_sm =
  sm_sort_by :: string
  sm_ascending :: bool
  sm_filter_name :: string
  sm_filter_pid :: "int option"
  sm_last_message :: string

definition kill_process_sm :: "(int \<Rightarrow> error + unit) \<Rightarrow> string \<Rightarrow> error + string" where
  \<comment> \<open>system_monitor.py lines 196-200: the new \<open>last_message\<close>\<close>
  "kill_process_sm terminate kill_pid =
     (case bind_err (py_int kill_pid) (\<lambda>pid.
             bind_err (terminate pid) (\<lambda>_.
             Inr (''Terminated process with PID '' @ kill_pid))) of
        Inr m \<Rightarrow> Inr m
      | Inl e \<Rightarrow>
          if e = NoSuchProcess \<or> e = ZombieProcess \<or> e = AccessDenied
          then Inr (''Failed to terminate process with PID '' @ kill_pid)
          else Inl e)"

definition handle_key_sm ::
  "(int \<Rightarrow> error + unit) \<Rightarrow> int \<Rightarrow> error + string \<Rightarrow> view_sm \<Rightarrow> error + view_sm option" where
  \<comment> \<open>system_monitor.py lines 166-202\<close>
  "handle_key_sm terminate key typed st =
     (if key = ord CHR ''q'' then Inr None
      else case
        (if key = ord CHR ''f'' then
           bind_err typed (\<lambda>name_input.
           let filter_name = strip name_input
           in Inr (st\<lparr>sm_filter_name := filter_name,
                      sm_last_message := ''Filtering by process name: '' @ filter_name\<rparr>))
         else if key = ord CHR ''p'' then
           bind_err typed (\<lambda>pid_input.
           bind_err (if isdigit pid_input then map_sum id Some (py_int (strip pid_input))
                     else Inr None)
             (\<lambda>filter_pid. Inr (st\<lparr>sm_filter_pid := filter_pid, sm_last_message := ''''\<rparr>)))
         else if key = ord CHR ''s'' then
           (let sort_by = (if sm_sort_by st = ''cpu'' then ''memory'' else ''cpu'')
            in Inr (st\<lparr>sm_sort_by := sort_by,
                       sm_last_message := ''Sorting by '' @
                         (if sort_by = ''cpu'' then ''CPU'' else ''Memory'')\<rparr>))
         else if key = ord CHR ''a'' then
           (let ascending = \<not> sm_ascending st
            in Inr (st\<lparr>sm_ascending := ascending,
                       sm_last_message := ''Sorting in '' @
                         (if ascending then ''ascending'' else ''descending'') @ '' order''\<rparr>))
         else if key = ord CHR ''k'' then
           bind_err typed (\<lambda>kill_pid.
           bind_err (kill_process_sm terminate kill_pid) (\<lambda>m.
           Inr (st\<lparr>sm_last_message := m\<rparr>)))
         else Inr st)
      of Inr st' \<Rightarrow> Inr (Some st')
       | Inl e \<Rightarrow> if e = CursesError then Inr (Some st) else Inl e)"

section \<open>Rounding to a double\<close>

lemma round_half_even_ge_floor: "\<lfloor>x\<rfloor> \<le> round_half_even x"
  by (simp add: round_half_even_def Let_def)

lemma round_half_even_le_ceiling: "round_half_even x \<le> \<lceil>x\<rceil>"
  unfolding round_half_even_def Let_def
  by (auto simp: ceiling_altdef)

lemma round_half_even_of_int [simp]: "round_half_even (of_int i) = i"
  by (simp add: round_half_even_def)

lemma ilog2_nonneg: "1 \<le> a \<Longrightarrow> 0 \<le> ilog2 a"
proof -
  assume a: "1 \<le> a"
  then have "0 < \<lfloor>a\<rfloor>" by simp
  then have "bitlen \<lfloor>a\<rfloor> \<noteq> 0" by (simp add: bitlen_eq_zero_iff)
  with bitlen_nonneg [of "\<lfloor>a\<rfloor>"] have "1 \<le> bitlen \<lfloor>a\<rfloor>" by linarith
  with a show ?thesis by (simp add: ilog2_def)
qed

lemma ilog2_lower: "1 \<le> a \<Longrightarrow> 2 powi (ilog2 a) \<le> a"
proof -
  assume a: "1 \<le> a"
  then have pos: "0 < \<lfloor>a\<rfloor>" by simp
  from ilog2_nonneg [OF a] a have nn: "0 \<le> bitlen \<lfloor>a\<rfloor> - 1" by (simp add: ilog2_def)
  from bitlen_bounds [OF pos] have "2 ^ nat (bitlen \<lfloor>a\<rfloor> - 1) \<le> \<lfloor>a\<rfloor>" by simp
  then have "(of_int (2 ^ nat (bitlen \<lfloor>a\<rfloor> - 1)) :: rat) \<le> of_int \<lfloor>a\<rfloor>"
    by (simp only: of_int_le_iff)
  also have "\<dots> \<le> a" by simp
  finally have "(2::rat) ^ nat (bitlen \<lfloor>a\<rfloor> - 1) \<le> a" by simp
  with a nn show ?thesis by (simp add: ilog2_def power_int_nonneg_exp)
qed

lemma ilog2_upper: "1 \<le> a \<Longrightarrow> a < 2 powi (ilog2 a + 1)"
proof -
  assume a: "1 \<le> a"
  then have pos: "0 < \<lfloor>a\<rfloor>" by simp
  from bitlen_bounds [OF pos] have "\<lfloor>a\<rfloor> < 2 ^ nat (bitlen \<lfloor>a\<rfloor>)" by simp
  then have "\<lfloor>a\<rfloor> + 1 \<le> 2 ^ nat (bitlen \<lfloor>a\<rfloor>)" by simp
  then have "(of_int (\<lfloor>a\<rfloor> + 1) :: rat) \<le> of_int (2 ^ nat (bitlen \<lfloor>a\<rfloor>))"
    by (simp only: of_int_le_iff)
  moreover have "a < of_int (\<lfloor>a\<rfloor> + 1)" by linarith
  ultimately have "a < (2::rat) ^ nat (bitlen \<lfloor>a\<rfloor>)" by simp
  with a bitlen_nonneg [of "\<lfloor>a\<rfloor>"] show ?thesis by (simp add: ilog2_def power_int_nonneg_exp)
qed

lemma fl_unfold:
  assumes "1 \<le> q"
  shows "fl q = of_int (round_half_even (q / 2 powi (ilog2 q - 52))) * 2 powi (ilog2 q - 52)"
proof -
  from assms have "0 < q" by simp
  moreover from ilog2_nonneg [OF assms] have "max (ilog2 q - 52) (- 1074) = ilog2 q - 52" by simp
  ultimately show ?thesis by (simp add: fl_def Let_def)
qed

lemma fl_ge_powi:
  assumes q: "1 \<le> q" and j: "2 powi j \<le> q" and e: "ilog2 q - 52 \<le> j"
  shows "2 powi j \<le> fl q"
proof -
  define e where "e = ilog2 q - 52"
  define p :: rat where "p = 2 powi e"
  have p: "0 < p" by (simp add: p_def)
  have je: "0 \<le> j - e" using e by (simp add: e_def)
  have split: "(2::rat) powi j = of_int (2 ^ nat (j - e)) * p"
  proof -
    have "(2::rat) powi j = 2 powi ((j - e) + e)" by simp
    also have "\<dots> = 2 powi (j - e) * 2 powi e" by (rule power_int_add) simp
    also have "\<dots> = of_int (2 ^ nat (j - e)) * p" using je by (simp add: p_def power_int_nonneg_exp)
    finally show ?thesis .
  qed
  from j p have "of_int (2 ^ nat (j - e)) \<le> q / p" by (simp add: split pos_le_divide_eq)
  then have "2 ^ nat (j - e) \<le> \<lfloor>q / p\<rfloor>" by (simp only: le_floor_iff)
  also have "\<dots> \<le> round_half_even (q / p)" by (rule round_half_even_ge_floor)
  finally have "(of_int (2 ^ nat (j - e)) :: rat) \<le> of_int (round_half_even (q / p))"
    by (simp only: of_int_le_iff)
  with p have "of_int (2 ^ nat (j - e)) * p \<le> of_int (round_half_even (q / p)) * p"
    by (simp only: mult_le_cancel_right_pos)
  then show ?thesis by (simp only: split fl_unfold [OF q] e_def [symmetric] p_def [symmetric])
qed

lemma fl_ge_pow2:
  assumes "2 ^ k \<le> q"
  shows "2 ^ k \<le> fl q"
proof -
  have "(1::rat) \<le> 2 ^ k" by simp
  with assms have q: "1 \<le> q" by linarith
  show ?thesis
  proof (cases "ilog2 q - 52 \<le> int k")
    case True
    from assms have "2 powi (int k) \<le> q" by simp
    from fl_ge_powi [OF q this True] show ?thesis by simp
  next
    case False
    then have "int k \<le> ilog2 q" by simp
    then have "(2::rat) powi (int k) \<le> 2 powi (ilog2 q)" by (intro power_int_increasing) simp_all
    also have "\<dots> \<le> fl q" by (rule fl_ge_powi [OF q ilog2_lower [OF q]]) simp
    finally show ?thesis by simp
  qed
qed

lemma fl_le_pow2:
  assumes q: "1 \<le> q" and k: "q \<le> 2 ^ k"
  shows "fl q \<le> 2 ^ k"
proof -
  define e where "e = ilog2 q - 52"
  define p :: rat where "p = 2 powi e"
  have p: "0 < p" by (simp add: p_def)
  have "(2::rat) powi (ilog2 q) \<le> 2 powi (int k)" using ilog2_lower [OF q] k by simp
  then have "ilog2 q \<le> int k"
    using power_int_strict_increasing [of "int k" "ilog2 q" "2::rat"] by (cases "ilog2 q \<le> int k") simp_all
  then have je: "0 \<le> int k - e" by (simp add: e_def)
  have split: "(2::rat) ^ k = of_int (2 ^ nat (int k - e)) * p"
  proof -
    have "(2::rat) ^ k = 2 powi ((int k - e) + e)" by simp
    also have "\<dots> = 2 powi (int k - e) * 2 powi e" by (rule power_int_add) simp
    also have "\<dots> = of_int (2 ^ nat (int k - e)) * p" using je by (simp add: p_def power_int_nonneg_exp)
    finally show ?thesis .
  qed
  from k p have "q / p \<le> of_int (2 ^ nat (int k - e))" by (simp add: split pos_divide_le_eq)
  then have "\<lceil>q / p\<rceil> \<le> 2 ^ nat (int k - e)" by (simp only: ceiling_le_iff)
  with round_half_even_le_ceiling [of "q / p"] have "round_half_even (q / p) \<le> 2 ^ nat (int k - e)"
    by linarith
  then have "(of_int (round_half_even (q / p)) :: rat) \<le> of_int (2 ^ nat (int k - e))"
    by (simp only: of_int_le_iff)
  with p have "of_int (round_half_even (q / p)) * p \<le> of_int (2 ^ nat (int k - e)) * p"
    by (simp only: mult_le_cancel_right_pos)
  then show ?thesis by (simp only: split fl_unfold [OF q] e_def [symmetric] p_def [symmetric])
qed

lemma fl_exact:
  assumes m: "m < 2 ^ 53" and q: "1 \<le> of_int m / (2::rat) ^ j"
  shows "fl (of_int m / 2 ^ j) = of_int m / 2 ^ j"
proof -
  define q :: rat where "q = of_int m / 2 ^ j"
  define e where "e = ilog2 q - 52"
  define p :: rat where "p = 2 powi e"
  have q1: "1 \<le> q" using q by (simp add: q_def)
  have p: "0 < p" by (simp add: p_def)
  have "(of_int m :: rat) < of_int (2 ^ 53)" using m by (simp only: of_int_less_iff)
  then have "q < 2 ^ 53 / 2 ^ j" by (simp add: q_def divide_strict_right_mono)
  also have "\<dots> = 2 powi (53 - int j)" by (simp add: power_int_diff)
  finally have "(2::rat) powi (ilog2 q) < 2 powi (53 - int j)" using ilog2_lower [OF q1] by simp
  then have "ilog2 q < 53 - int j"
    using power_int_increasing [of "53 - int j" "ilog2 q" "2::rat"] by (cases "ilog2 q < 53 - int j") simp_all
  then have je: "0 \<le> - int j - e" by (simp add: e_def)
  have "q / p = of_int m * (2 powi (- int j) / 2 powi e)" by (simp add: q_def p_def power_int_minus field_simps)
  also have "2 powi (- int j) / 2 powi e = (2::rat) powi (- int j - e)" by (simp add: power_int_diff)
  also have "\<dots> = of_int (2 ^ nat (- int j - e))" using je by (simp add: power_int_nonneg_exp)
  finally have qp: "q / p = of_int (m * 2 ^ nat (- int j - e))" by simp
  have "fl q = of_int (round_half_even (q / p)) * p"
    by (simp only: fl_unfold [OF q1] e_def [symmetric] p_def [symmetric])
  also have "\<dots> = (q / p) * p" by (simp only: qp round_half_even_of_int)
  also have "\<dots> = q" using p by simp
  finally show ?thesis by (simp add: q_def)
qed

section \<open>Facts about get_size\<close>

lemma pow1024: "(1024::rat) ^ j = 2 ^ (10 * j)"
  by (simp add: power_mult)

lemma fl_exact_1024:
  assumes "n < 2 ^ 53" and "1024 ^ j \<le> n"
  shows "fl (of_int n / 1024 ^ j) = of_int n / 1024 ^ j"
proof -
  from assms(2) have "(of_int (1024 ^ j) :: rat) \<le> of_int n" by (simp only: of_int_le_iff)
  then have "1 \<le> of_int n / (2::rat) ^ (10 * j)" by (simp add: pow1024)
  from fl_exact [OF assms(1) this] show ?thesis by (simp only: pow1024)
qed

lemma finite_double_iff: "finite_double x \<longleftrightarrow> \<bar>x\<bar> < 2 ^ 1024"
  by (simp add: finite_double_def)

lemma finite_double_small: "0 \<le> x \<Longrightarrow> x < 2 ^ 53 \<Longrightarrow> finite_double x"
proof -
  assume "0 \<le> x" "x < 2 ^ 53"
  moreover have "(2::rat) ^ 53 < 2 ^ 1024" by (rule power_strict_increasing) simp_all
  ultimately show ?thesis by (simp add: finite_double_iff)
qed

lemma get_size_loop_float:
  assumes "n < 2 ^ 53" and "1024 ^ (j + k) \<le> n" and "n < 1024 ^ (j + k + 1)" and "k < length us"
  shows "get_size_loop (PyFloat (of_int n / 1024 ^ j)) us suffix =
         Inr (Some (fmt2 (of_int n / 1024 ^ (j + k)) @ us ! k @ suffix))"
  using assms
proof (induction k arbitrary: j us)
  case 0
  then obtain u rest where us: "us = u # rest" by (cases us) auto
  define v :: rat where "v = of_int n / 1024 ^ j"
  from 0 have "(of_int n :: rat) < of_int (1024 ^ (j + 1))" by (simp only: of_int_less_iff) simp
  then have "v < 1024" by (simp add: v_def pos_divide_less_eq)
  then have "get_size_loop (PyFloat v) (u # rest) suffix = Inr (Some (fmt2 v @ u @ suffix))"
    by simp
  then show ?case by (simp add: us v_def)
next
  case (Suc k)
  then obtain u rest where us: "us = u # rest" by (cases us) auto
  define v :: rat where "v = of_int n / 1024 ^ j"
  define v' :: rat where "v' = of_int n / 1024 ^ (j + 1)"
  have "(1024::int) ^ (j + 1) \<le> 1024 ^ (j + Suc k)" by (rule power_increasing) simp_all
  with Suc.prems have lo: "1024 ^ (j + 1) \<le> n" by linarith
  then have "(of_int (1024 ^ (j + 1)) :: rat) \<le> of_int n" by (simp only: of_int_le_iff)
  then have big: "\<not> v < 1024" by (simp add: v_def pos_divide_less_eq)
  have vv': "v / 1024 = v'" by (simp add: v_def v'_def)
  have "fl v' = v'" unfolding v'_def by (rule fl_exact_1024 [OF Suc.prems(1) lo])
  with vv' have step: "fl (v / 1024) = v'" by simp
  have one: "get_size_loop (PyFloat v) (u # rest) suffix = get_size_loop (PyFloat v') rest suffix"
    using big step by simp
  have "get_size_loop (PyFloat (of_int n / 1024 ^ (j + 1))) rest suffix =
        Inr (Some (fmt2 (of_int n / 1024 ^ ((j + 1) + k)) @ rest ! k @ suffix))"
    using Suc.prems by (intro Suc.IH) (simp_all add: us)
  then have "get_size_loop (PyFloat v') rest suffix =
        Inr (Some (fmt2 (of_int n / 1024 ^ (j + Suc k)) @ us ! Suc k @ suffix))"
    by (simp add: v'_def us)
  with one show ?case by (simp only: us v_def)
qed

lemma finite_double_of_int:
  assumes "0 \<le> n" and "n < 2 ^ 53"
  shows "finite_double (of_int n / 1024 ^ j)"
proof -
  have "(of_int n :: rat) < of_int (2 ^ 53)" using assms(2) by (simp only: of_int_less_iff)
  then have a: "(of_int n :: rat) < 2 ^ 53" by simp
  have "(1::rat) \<le> 1024 ^ j" by simp
  then have "(of_int n :: rat) / 1024 ^ j \<le> of_int n / 1" using assms(1)
    by (intro divide_left_mono) simp_all
  with a have "(of_int n :: rat) / 1024 ^ j < 2 ^ 53" by simp
  moreover have "0 \<le> (of_int n :: rat) / 1024 ^ j" using assms(1) by simp
  ultimately show ?thesis by (rule finite_double_small [rotated])
qed

lemma get_size_exact:
  assumes "0 \<le> n" and "n < 2 ^ 53" and "k < 6" and "k = 0 \<or> 1024 ^ k \<le> n" and "n < 1024 ^ (k + 1)"
  shows "get_size n = Inr (Some (fmt2 (of_int n / 1024 ^ k) @ units ! k @ ''B''))"
proof (cases k)
  case 0
  have fln: "fl (of_int n) = of_int n"
  proof (cases "n = 0")
    case True
    then show ?thesis by (simp add: fl_def)
  next
    case False
    with assms(1) have "1024 ^ 0 \<le> n" by simp
    from fl_exact_1024 [OF assms(2) this] show ?thesis by simp
  qed
  from finite_double_of_int [OF assms(1,2), of 0] have fin: "finite_double (of_int n)" by simp
  from 0 assms(5) have small: "n < 1024" by simp
  have "get_size_loop (PyInt n) ('''' # tl units) ''B'' = Inr (Some (fmt2 (of_int n) @ '''' @ ''B''))"
    using small fin fln by simp
  with 0 show ?thesis by (simp add: get_size_def units_def)
next
  case (Suc k')
  define v' :: rat where "v' = of_int n / 1024 ^ 1"
  from Suc assms have lo: "1024 ^ (Suc k') \<le> n" by simp
  have "(1024::int) ^ 1 \<le> 1024 ^ Suc k'" by (rule power_increasing) simp_all
  with lo have n1024: "1024 ^ 1 \<le> n" by linarith
  then have big: "\<not> n < 1024" by simp
  have "fl v' = v'" unfolding v'_def by (rule fl_exact_1024 [OF assms(2) n1024])
  moreover have vv: "of_int n / of_int 1024 = v'" by (simp add: v'_def)
  ultimately have step: "fl (of_int n / of_int 1024) = v'" by (simp only:)
  from finite_double_of_int [OF assms(1,2), of 1] have fin: "finite_double v'" by (simp only: v'_def)
  have td: "truediv (PyInt n) 1024 = Inr (PyFloat v')"
    using fin by (simp only: truediv.simps step) simp
  have one: "get_size_loop (PyInt n) ('''' # tl units) ''B'' = get_size_loop (PyFloat v') (tl units) ''B''"
    using big by (simp only: get_size_loop.simps td num_val.simps) simp
  have "get_size_loop (PyFloat (of_int n / 1024 ^ 1)) (tl units) ''B'' =
        Inr (Some (fmt2 (of_int n / 1024 ^ (1 + k')) @ tl units ! k' @ ''B''))"
    using assms Suc lo by (intro get_size_loop_float) (simp_all add: units_def)
  moreover have "tl units ! k' = units ! k" using Suc by (simp add: units_def)
  moreover have "units = '''' # tl units" by (simp add: units_def)
  ultimately show ?thesis using one Suc
    by (simp only: get_size_def v'_def) simp
qed

lemma get_size_loop_float_None:
  assumes "2 ^ (10 * length us) \<le> v"
  shows "get_size_loop (PyFloat v) us suffix = Inr None"
  using assms
proof (induction us arbitrary: v)
  case Nil
  show ?case by simp
next
  case (Cons u us)
  have "(2::rat) ^ 10 \<le> 2 ^ (10 * length (u # us))" by (rule power_increasing) simp_all
  with Cons.prems have big: "\<not> v < 1024" by simp
  from Cons.prems have "2 ^ (10 * length us) * 2 ^ 10 \<le> v" by (simp add: power_add mult.commute)
  then have "2 ^ (10 * length us) \<le> v / 1024" by (simp add: pos_le_divide_eq)
  then have "2 ^ (10 * length us) \<le> fl (v / 1024)" by (rule fl_ge_pow2)
  then have "get_size_loop (PyFloat (fl (v / 1024))) us suffix = Inr None" by (rule Cons.IH)
  with big show ?case by simp
qed

lemma fl_bounds:
  assumes "2 ^ j \<le> q" and "q \<le> 2 ^ k"
  shows "2 ^ j \<le> fl q" and "fl q \<le> 2 ^ k"
proof -
  have "(1::rat) \<le> 2 ^ j" by simp
  with assms(1) have "1 \<le> q" by linarith
  then show "fl q \<le> 2 ^ k" using assms(2) by (rule fl_le_pow2)
  show "2 ^ j \<le> fl q" using assms(1) by (rule fl_ge_pow2)
qed

lemma finite_double_fl:
  assumes "1 \<le> q" and "q \<le> 2 ^ k" and "k < 1024"
  shows "finite_double (fl q)"
proof -
  from assms(1) have "2 ^ 0 \<le> q" by simp
  from fl_bounds [OF this assms(2)] have "1 \<le> fl q" "fl q \<le> 2 ^ k" by simp_all
  moreover have "(2::rat) ^ k < 2 ^ 1024" using assms(3) by (intro power_strict_increasing) simp_all
  ultimately show ?thesis by (simp add: finite_double_iff)
qed

lemma truediv_int_1024:
  assumes "1024 \<le> n" and "n < 2 ^ 1024"
  shows "truediv (PyInt n) 1024 = Inr (PyFloat (fl (of_int n / 1024)))"
proof -
  have "(of_int 1024 :: rat) \<le> of_int n" using assms(1) by (simp only: of_int_le_iff)
  then have lo: "1 \<le> (of_int n :: rat) / 1024" by simp
  have "(of_int n :: rat) < of_int (2 ^ 1024)" using assms(2) by (simp only: of_int_less_iff)
  then have "(of_int n :: rat) < 2 ^ 1014 * 2 ^ 10" by (simp only: of_int_power of_int_numeral flip: power_add) simp
  then have "(of_int n :: rat) / 1024 \<le> 2 ^ 1014" by (simp add: pos_divide_le_eq)
  from finite_double_fl [OF lo this] have "finite_double (fl (of_int n / 1024))" by simp
  then show "truediv (PyInt n) 1024 = Inr (PyFloat (fl (of_int n / 1024)))" by simp
qed

lemma get_size_None:
  assumes "1024 ^ 6 \<le> n" and "n < 2 ^ 1024"
  shows "get_size n = Inr None"
proof -
  from assms(1) have big: "\<not> n < 1024" and n1024: "1024 \<le> n" by simp_all
  have "(of_int (1024 ^ 6) :: rat) \<le> of_int n" using assms(1) by (simp only: of_int_le_iff)
  then have "(2::rat) ^ 50 * 1024 \<le> of_int n" by simp
  then have "(2::rat) ^ 50 \<le> of_int n / 1024" by (simp add: pos_le_divide_eq)
  then have "(2::rat) ^ 50 \<le> fl (of_int n / 1024)" by (rule fl_ge_pow2)
  moreover have "10 * length (tl units) = 50" by (simp add: units_def)
  ultimately have "(2::rat) ^ (10 * length (tl units)) \<le> fl (of_int n / 1024)" by (simp only:)
  then have "get_size_loop (PyFloat (fl (of_int n / 1024))) (tl units) ''B'' = Inr None"
    by (rule get_size_loop_float_None)
  moreover have "get_size_loop (PyInt n) ('''' # tl units) ''B'' =
                 get_size_loop (PyFloat (fl (of_int n / 1024))) (tl units) ''B''"
    using big by (simp add: truediv_int_1024 [OF n1024 assms(2)] del: truediv.simps)
  moreover have "units = '''' # tl units" by (simp add: units_def)
  ultimately show ?thesis by (simp only: get_size_def)
qed

lemma get_size_loop_float_ok: "\<exists>r. get_size_loop (PyFloat v) us suffix = Inr r"
  by (induction us arbitrary: v) simp_all

lemma get_size_ok:
  assumes "0 \<le> n" and "n < 2 ^ 1024"
  shows "\<exists>r. get_size n = Inr r"
proof (cases "n < 1024")
  case True
  have "finite_double (fl (of_int n))"
  proof (cases "n = 0")
    case True
    then show ?thesis by (simp add: fl_def finite_double_iff)
  next
    case False
    with assms(1) have "1 \<le> n" by simp
    then have "(of_int 1 :: rat) \<le> of_int n" by (simp only: of_int_le_iff)
    then have lo: "(1::rat) \<le> of_int n" by simp
    from True have "n \<le> 2 ^ 10" by simp
    then have "(of_int n :: rat) \<le> of_int (2 ^ 10)" by (simp only: of_int_le_iff)
    then have "(of_int n :: rat) \<le> 2 ^ 10" by simp
    from finite_double_fl [OF lo this] show ?thesis by simp
  qed
  with True show ?thesis by (simp add: get_size_def units_def)
next
  case False
  then have n1024: "1024 \<le> n" by simp
  have "units = '''' # tl units" by (simp add: units_def)
  moreover have "get_size_loop (PyInt n) ('''' # tl units) ''B'' =
                 get_size_loop (PyFloat (fl (of_int n / 1024))) (tl units) ''B''"
    using False by (simp add: truediv_int_1024 [OF n1024 assms(2)] del: truediv.simps)
  ultimately show ?thesis using get_size_loop_float_ok by (simp only: get_size_def)
qed

lemma get_size_loop_error:
  "get_size_loop b us suffix = Inl e \<Longrightarrow> e = OverflowError"
proof (induction us arbitrary: b)
  case Nil
  then show ?case by simp
next
  case (Cons u us)
  then show ?case
    by (cases b) (auto split: if_splits sum.splits)
qed

lemma get_size_error: "get_size n = Inl e \<Longrightarrow> e = OverflowError"
  unfolding get_size_def by (rule get_size_loop_error)

section \<open>Facts about the error plumbing and the rows\<close>

lemma bind_err_Inr_iff:
  "bind_err m f = Inr y \<longleftrightarrow> (\<exists>x. m = Inr x \<and> f x = Inr y)"
  by (cases m) (simp_all add: bind_err_def)

lemma bind_err_Inl_iff:
  "bind_err m f = Inl e \<longleftrightarrow> m = Inl e \<or> (\<exists>x. m = Inr x \<and> f x = Inl e)"
  by (cases m) (simp_all add: bind_err_def)

lemma bind_err_simps [simp]:
  "bind_err (Inr x) f = f x"
  "bind_err (Inl e) f = Inl e"
  by (simp_all add: bind_err_def)

lemma map_err_Inr:
  "map_err f xs = Inr ys \<Longrightarrow> list_all2 (\<lambda>x y. f x = Inr y) xs ys"
proof (induction xs arbitrary: ys)
  case Nil
  then show ?case by simp
next
  case (Cons x xs)
  then show ?case by (auto simp: bind_err_Inr_iff)
qed

lemma map_err_Inl:
  "map_err f xs = Inl e \<Longrightarrow> \<exists>x \<in> set xs. f x = Inl e"
proof (induction xs)
  case Nil
  then show ?case by simp
next
  case (Cons x xs)
  then show ?case by (auto simp: bind_err_Inl_iff)
qed

lemma map_err_ok:
  "\<forall>x \<in> set xs. \<exists>y. f x = Inr y \<Longrightarrow> \<exists>ys. map_err f xs = Inr ys"
proof (induction xs)
  case Nil
  then show ?case by simp
next
  case (Cons x xs)
  then obtain y ys where "f x = Inr y" "map_err f xs = Inr ys" by auto
  then show ?case by simp
qed

lemma set_sorted_py [simp]: "set (sorted_py key reverse xs) = set xs"
  by (simp add: sorted_py_def)

lemma length_sorted_py [simp]: "length (sorted_py key reverse xs) = length xs"
  by (simp add: sorted_py_def)

lemma fmt2_zero: "fmt2 0 = ''0.00''"
  by code_simp

lemma format_2f_zero: "format_2f (PyInt 0) = Inr ''0.00''"
  by (simp add: fl_def finite_double_def fmt2_zero)

lemma percent_usage_zero: "percent_usage process_io 0 = Inr (PyInt 0)"
  by (simp add: percent_usage_def)

lemma disk_usage_text_zero_cases:
  "disk_usage_text rd wr 0 =
     (case get_size rd of
        Inl e \<Rightarrow> Inl e
      | Inr r \<Rightarrow>
          (case get_size wr of
             Inl e \<Rightarrow> Inl e
           | Inr w \<Rightarrow> Inr (''R: '' @ py_str r @ '' W: '' @ py_str w @ '' | %: '' @ ''0.00'' @ ''%'')))"
  by (cases "get_size rd"; cases "get_size wr")
     (simp_all only: disk_usage_text_def percent_usage_zero format_2f_zero bind_err_simps sum.case)

lemma io_text_suffix:
  "''R: '' @ a @ '' W: '' @ b @ '' | %: '' @ ''0.00'' @ ''%'' = (''R: '' @ a @ '' W: '' @ b) @ '' | %: 0.00%''"
  by simp

lemma disk_usage_text_zero:
  assumes "disk_usage_text rd wr 0 = Inr t"
  shows "\<exists>u. t = u @ '' | %: 0.00%''"
proof (cases "get_size rd")
  case (Inl e)
  with assms show ?thesis by (simp only: disk_usage_text_zero_cases sum.case sum.distinct)
next
  case r: (Inr r)
  show ?thesis
  proof (cases "get_size wr")
    case (Inl e)
    with assms r show ?thesis by (simp only: disk_usage_text_zero_cases sum.case sum.distinct)
  next
    case (Inr w)
    define u where "u = ''R: '' @ py_str r @ '' W: '' @ py_str w"
    from assms r Inr have "t = (''R: '' @ py_str r @ '' W: '' @ py_str w) @ '' | %: 0.00%''"
      by (simp only: disk_usage_text_zero_cases sum.case sum.inject io_text_suffix)
    then have "t = u @ '' | %: 0.00%''" by (simp only: u_def)
    then show ?thesis by (rule exI [where x = u])
  qed
qed

lemma disk_usage_text_zero_error:
  assumes "disk_usage_text rd wr 0 = Inl e"
  shows "e = OverflowError"
proof (cases "get_size rd")
  case (Inl e')
  with assms have "e' = e" by (simp only: disk_usage_text_zero_cases sum.case sum.inject)
  with Inl have "get_size rd = Inl e" by (simp only:)
  then show ?thesis by (rule get_size_error)
next
  case r: (Inr r)
  show ?thesis
  proof (cases "get_size wr")
    case (Inl e')
    with assms r have "e' = e" by (simp only: disk_usage_text_zero_cases sum.case sum.inject)
    with Inl have "get_size wr = Inl e" by (simp only:)
    then show ?thesis by (rule get_size_error)
  next
    case (Inr w)
    with assms r show ?thesis by (simp only: disk_usage_text_zero_cases sum.case sum.distinct)
  qed
qed

lemma disk_usage_text_zero_ok:
  assumes "0 \<le> rd" "rd < 2 ^ 1024" "0 \<le> wr" "wr < 2 ^ 1024"
  shows "\<exists>t. disk_usage_text rd wr 0 = Inr t"
proof -
  from get_size_ok [OF assms(1,2)] obtain r where "get_size rd = Inr r" ..
  moreover from get_size_ok [OF assms(3,4)] obtain w where "get_size wr = Inr w" ..
  ultimately show ?thesis by (simp only: disk_usage_text_zero_cases sum.case) blast
qed

lemma make_row_sm_cases:
  "make_row_sm total_io p =
     (case get_size (info_rss p) of
        Inl e \<Rightarrow> Inl e
      | Inr m \<Rightarrow>
          (case disk_usage_text (io_read p) (io_write p) total_io of
             Inl e \<Rightarrow> Inl e
           | Inr t \<Rightarrow>
               Inr \<lparr> sm_pid = info_pid p, sm_name = name_or_unknown (info_name p),
                     sm_cpu_percent = info_cpu_percent p, sm_memory_usage = m,
                     sm_disk_usage = t, sm_process_io = io_read p + io_write p \<rparr>))"
  by (cases "get_size (info_rss p)"; cases "disk_usage_text (io_read p) (io_write p) total_io")
     (simp_all add: make_row_sm_def)

lemma make_row_sm_zero:
  assumes "make_row_sm 0 p = Inr r"
  shows "\<exists>u. sm_disk_usage r = u @ '' | %: 0.00%''"
proof (cases "get_size (info_rss p)")
  case (Inl e)
  with assms show ?thesis by (simp add: make_row_sm_cases)
next
  case m: (Inr m)
  show ?thesis
  proof (cases "disk_usage_text (io_read p) (io_write p) 0")
    case (Inl e)
    with assms m show ?thesis by (simp add: make_row_sm_cases)
  next
    case (Inr t)
    with assms m have "sm_disk_usage r = t" by (auto simp: make_row_sm_cases)
    with disk_usage_text_zero [OF Inr] show ?thesis by (simp only:)
  qed
qed

lemma make_row_sm_zero_error:
  assumes "make_row_sm 0 p = Inl e"
  shows "e = OverflowError"
proof (cases "get_size (info_rss p)")
  case (Inl e')
  with assms have "e' = e" by (simp add: make_row_sm_cases)
  with Inl have "get_size (info_rss p) = Inl e" by (simp only:)
  then show ?thesis by (rule get_size_error)
next
  case m: (Inr m)
  show ?thesis
  proof (cases "disk_usage_text (io_read p) (io_write p) 0")
    case (Inl e')
    with assms m have "e' = e" by (simp add: make_row_sm_cases)
    with Inl have "disk_usage_text (io_read p) (io_write p) 0 = Inl e" by (simp only:)
    then show ?thesis by (rule disk_usage_text_zero_error)
  next
    case (Inr t)
    with assms m show ?thesis by (simp add: make_row_sm_cases)
  qed
qed

definition counts_in_range :: "proc_info \<Rightarrow> bool" where
  "counts_in_range p \<longleftrightarrow>
     0 \<le> info_rss p \<and> info_rss p < 2 ^ 1024 \<and>
     0 \<le> io_read p \<and> io_read p < 2 ^ 1024 \<and> 0 \<le> io_write p \<and> io_write p < 2 ^ 1024"

lemma make_row_sm_zero_ok:
  assumes "counts_in_range p"
  shows "\<exists>r. make_row_sm 0 p = Inr r"
proof -
  from assms have "0 \<le> info_rss p" "info_rss p < 2 ^ 1024" by (simp_all add: counts_in_range_def)
  from get_size_ok [OF this] obtain m where m: "get_size (info_rss p) = Inr m" ..
  from assms have "0 \<le> io_read p" "io_read p < 2 ^ 1024" "0 \<le> io_write p" "io_write p < 2 ^ 1024"
    by (simp_all add: counts_in_range_def)
  from disk_usage_text_zero_ok [OF this] obtain t
    where "disk_usage_text (io_read p) (io_write p) 0 = Inr t" ..
  with m show ?thesis by (simp add: make_row_sm_cases)
qed

section \<open>The claims\<close>

subsection \<open>C7: colour of a process row\<close>

lemma fl_8001_gt_80: "80 < fl (8001 / 100)" by code_simp

text \<open>
  C7. A process row is drawn in the colour pair for high usage (red) exactly when its
  \<open>cpu_percent\<close> is above 80, in the pair for moderate usage (yellow) exactly when it is
  above 40 and at most 80, and in the pair for low usage (green) exactly when it is at
  most 40. The value 80.0 is drawn as moderate, the double nearest to 80.01 as high.
\<close>

theorem row_color_thresholds:
  "(init_pair (row_color c) = Some (COLOR_RED, COLOR_BLACK, HIGH) \<longleftrightarrow> 80 < c) \<and>
   (init_pair (row_color c) = Some (COLOR_YELLOW, COLOR_BLACK, MODERATE) \<longleftrightarrow> 40 < c \<and> c \<le> 80) \<and>
   (init_pair (row_color c) = Some (COLOR_GREEN, COLOR_BLACK, LOW) \<longleftrightarrow> c \<le> 40) \<and>
   init_pair (row_color 80) = Some (COLOR_YELLOW, COLOR_BLACK, MODERATE) \<and>
   init_pair (row_color (fl (8001 / 100))) = Some (COLOR_RED, COLOR_BLACK, HIGH)"
  using fl_8001_gt_80 by (simp add: row_color_def init_pair_def)

subsection \<open>C8: the texts get_size returns\<close>

lemma get_size_0: "get_size 0 = Inr (Some ''0.00B'')" by code_simp
lemma get_size_1024: "get_size 1024 = Inr (Some ''1.00KB'')" by code_simp
lemma get_size_1536: "get_size 1536 = Inr (Some ''1.50KB'')" by code_simp
lemma get_size_GB: "get_size (1024 ^ 3) = Inr (Some ''1.00GB'')" by code_simp

text \<open>
  C8, as the code has it. The units are the empty text, K, M, G, T and P, each followed
  by the suffix B: \<open>get_size(0)\<close> is \<open>0.00B\<close>, \<open>get_size(1024)\<close> is \<open>1.00KB\<close>,
  \<open>get_size(1536)\<close> is \<open>1.50KB\<close> and \<open>get_size(1024^3)\<close> is \<open>1.00GB\<close>. For a
  byte count \<open>n\<close> below \<open>2^53\<close> (every such int is a double, and so is every quotient
  of it by a power of 1024) the result is \<open>n / 1024^k\<close> with two decimals, for the first
  \<open>k\<close> with \<open>n < 1024^(k+1)\<close>, followed by the \<open>k\<close>-th unit and B.
\<close>

theorem get_size_units:
  "get_size 0 = Inr (Some ''0.00B'') \<and>
   get_size 1024 = Inr (Some ''1.00KB'') \<and>
   get_size 1536 = Inr (Some ''1.50KB'') \<and>
   get_size (1024 ^ 3) = Inr (Some ''1.00GB'') \<and>
   (\<forall>n k. 0 \<le> n \<and> n < 2 ^ 53 \<and> k < 6 \<and> (k = 0 \<or> 1024 ^ k \<le> n) \<and> n < 1024 ^ (k + 1) \<longrightarrow>
      get_size n = Inr (Some (fmt2 (of_int n / 1024 ^ k) @ units ! k @ ''B'')))"
  using get_size_0 get_size_1024 get_size_1536 get_size_GB get_size_exact by blast

lemma fmt2_5000000: "fmt2 (of_int 5000000 / 1024 ^ 2) @ units ! 2 @ ''B'' = ''4.77MB''" by code_simp

theorem get_size_units_witness:
  "(0::int) \<le> 5000000 \<and> (5000000::int) < 2 ^ 53 \<and> (2::nat) < 6 \<and> (1024::int) ^ 2 \<le> 5000000 \<and>
   (5000000::int) < 1024 ^ (2 + 1) \<and> get_size 5000000 = Inr (Some ''4.77MB'')"
proof -
  have h: "(0::int) \<le> 5000000 \<and> (5000000::int) < 2 ^ 53 \<and> (2::nat) < 6 \<and>
           ((2::nat) = 0 \<or> (1024::int) ^ 2 \<le> 5000000) \<and> (5000000::int) < 1024 ^ (2 + 1)" by simp
  from get_size_units have "get_size 5000000 = Inr (Some (fmt2 (of_int 5000000 / 1024 ^ 2) @ units ! 2 @ ''B''))"
    using h by blast
  then have "get_size 5000000 = Inr (Some ''4.77MB'')" by (simp only: fmt2_5000000)
  then show ?thesis by simp
qed

text \<open>
  The specification's \<open>humanize(1024) = "1.00K"\<close> is not what the code returns.
\<close>

theorem get_size_units_counterexample:
  "get_size 1024 = Inr (Some ''1.00KB'') \<and> get_size 1024 \<noteq> Inr (Some ''1.00K'')"
  by (simp add: get_size_1024)

subsection \<open>C9: the I/O share when the total is 0\<close>

text \<open>
  C9. When the total I/O over all processes (\<open>get_total_disk_io\<close>) is 0, the share computed
  for every process is the int 0 and no \<open>ZeroDivisionError\<close> is raised: every row that
  \<open>get_processes_info\<close> returns shows \<open>%: 0.00%\<close>, there is one row per process, and the
  call returns whenever the byte counts are non-negative and below \<open>2^1024\<close>.
\<close>

theorem io_share_zero:
  assumes "get_total_disk_io io_calls = Inr 0"
  shows "(\<forall>process_io. percent_usage process_io 0 = Inr (PyInt 0)) \<and>
         get_processes_info_sm sort_by ascending io_calls procs \<noteq> Inl ZeroDivisionError \<and>
         (\<forall>rows. get_processes_info_sm sort_by ascending io_calls procs = Inr rows \<longrightarrow>
            length rows = length procs \<and>
            (\<forall>r \<in> set rows. \<exists>u. sm_disk_usage r = u @ '' | %: 0.00%'')) \<and>
         ((\<forall>p \<in> set procs. counts_in_range p) \<longrightarrow>
            (\<exists>rows. get_processes_info_sm sort_by ascending io_calls procs = Inr rows))"
proof -
  have rows_eq: "get_processes_info_sm sort_by ascending io_calls procs =
      (case map_err (make_row_sm 0) procs of
         Inl e \<Rightarrow> Inl e
       | Inr processes \<Rightarrow>
           Inr (if sort_by = ''cpu'' then sorted_py sm_cpu_percent (\<not> ascending) processes
                else sorted_py sm_disk_usage (\<not> ascending) processes))"
    using assms by (cases "map_err (make_row_sm 0) procs") (simp_all add: get_processes_info_sm_def)
  have no_zero_div: "get_processes_info_sm sort_by ascending io_calls procs \<noteq> Inl ZeroDivisionError"
  proof
    assume "get_processes_info_sm sort_by ascending io_calls procs = Inl ZeroDivisionError"
    then have "map_err (make_row_sm 0) procs = Inl ZeroDivisionError"
      by (cases "map_err (make_row_sm 0) procs") (simp_all add: rows_eq)
    from map_err_Inl [OF this] obtain p where "make_row_sm 0 p = Inl ZeroDivisionError" by blast
    from make_row_sm_zero_error [OF this] show False by simp
  qed
  have rows: "length rows = length procs \<and> (\<forall>r \<in> set rows. \<exists>u. sm_disk_usage r = u @ '' | %: 0.00%'')"
    if "get_processes_info_sm sort_by ascending io_calls procs = Inr rows" for rows
  proof -
    from that obtain rs where rs: "map_err (make_row_sm 0) procs = Inr rs"
      and rows: "set rows = set rs" "length rows = length rs"
      by (cases "map_err (make_row_sm 0) procs") (auto simp: rows_eq)
    from map_err_Inr [OF rs] have l2: "list_all2 (\<lambda>p r. make_row_sm 0 p = Inr r) procs rs" .
    then have len: "length rs = length procs" by (simp add: list_all2_lengthD)
    have "\<exists>u. sm_disk_usage r = u @ '' | %: 0.00%''" if "r \<in> set rows" for r
    proof -
      from that rows have "r \<in> set rs" by simp
      then obtain i where "i < length rs" "rs ! i = r" by (auto simp: in_set_conv_nth)
      with l2 have "make_row_sm 0 (procs ! i) = Inr r" by (auto dest: list_all2_nthD2)
      then show ?thesis by (rule make_row_sm_zero)
    qed
    with len rows show ?thesis by simp
  qed
  have total: "\<exists>rows. get_processes_info_sm sort_by ascending io_calls procs = Inr rows"
    if "\<forall>p \<in> set procs. counts_in_range p"
  proof -
    from that have "\<forall>p \<in> set procs. \<exists>r. make_row_sm 0 p = Inr r" by (blast intro: make_row_sm_zero_ok)
    from map_err_ok [OF this] obtain rs where "map_err (make_row_sm 0) procs = Inr rs" ..
    then show ?thesis by (simp add: rows_eq)
  qed
  from no_zero_div rows total show ?thesis by (simp add: percent_usage_zero)
qed

theorem io_share_zero_witness:
  "get_total_disk_io [Inr \<lparr>read_bytes = 0, write_bytes = 0\<rparr>, Inl AccessDenied] = Inr 0 \<and>
   percent_usage 7 0 = Inr (PyInt 0) \<and>
   get_processes_info_sm ''cpu'' False [Inr \<lparr>read_bytes = 0, write_bytes = 0\<rparr>, Inl AccessDenied]
     [\<lparr>info_pid = 1, info_name = Some ''init'', info_cpu_percent = 0, info_rss = 4096,
       info_io_counters = Some \<lparr>read_bytes = 0, write_bytes = 0\<rparr>\<rparr>] \<noteq> Inl ZeroDivisionError"
proof -
  have h: "get_total_disk_io [Inr \<lparr>read_bytes = 0, write_bytes = 0\<rparr>, Inl AccessDenied] = Inr 0"
    by (simp add: get_total_disk_io_def)
  from io_share_zero [OF h] h show ?thesis by blast
qed

lemma disk_usage_text_None:
  assumes "get_size rd = Inr None" and "disk_usage_text rd wr total_io = Inr t"
  shows "\<exists>rest. t = ''R: None W: '' @ rest"
proof (cases "percent_usage (rd + wr) total_io")
  case (Inl e)
  with assms(2) show ?thesis by (simp only: disk_usage_text_def bind_err_simps sum.distinct)
next
  case pct: (Inr pct)
  show ?thesis
  proof (cases "get_size wr")
    case (Inl e)
    with assms pct show ?thesis by (simp only: disk_usage_text_def bind_err_simps sum.distinct)
  next
    case w: (Inr w)
    show ?thesis
    proof (cases "format_2f pct")
      case (Inl e)
      with assms pct w show ?thesis by (simp only: disk_usage_text_def bind_err_simps sum.distinct)
    next
      case (Inr p)
      define rest where "rest = py_str w @ '' | %: '' @ p @ ''%''"
      from assms pct w Inr
      have "t = ''R: '' @ py_str None @ '' W: '' @ py_str w @ '' | %: '' @ p @ ''%''"
        by (simp only: disk_usage_text_def bind_err_simps sum.inject)
      then have "t = ''R: None W: '' @ rest" by (simp add: rest_def py_str_def)
      then show ?thesis by (rule exI [where x = rest])
    qed
  qed
qed

lemma make_row_sm_memory_None:
  assumes "get_size (info_rss p) = Inr None" and "make_row_sm total_io p = Inr r"
  shows "sm_memory_usage r = None"
proof (cases "disk_usage_text (io_read p) (io_write p) total_io")
  case (Inl e)
  with assms show ?thesis by (simp add: make_row_sm_cases)
next
  case (Inr t)
  with assms show ?thesis by (auto simp: make_row_sm_cases)
qed

lemma format_row_None: "format_row float_text width pid name cpu None disk = Inl TypeError"
  by (simp add: format_row_def format_ljust_def)

lemma io_text_2_60: "disk_usage_text (2 ^ 60) 0 0 = Inr ''R: None W: 0.00B | %: 0.00%''"
  by code_simp

lemma make_row_am_memory_None:
  assumes "get_size (info_rss p) = Inr None" and "make_row_am p = Inr r"
  shows "am_memory_usage r = None"
proof (cases "case info_io_counters p of None \<Rightarrow> Inr (Some ''0B'')
              | Some io \<Rightarrow> get_size (read_bytes io + write_bytes io)")
  case (Inl e)
  with assms show ?thesis by (simp add: make_row_am_def)
next
  case (Inr d)
  with assms show ?thesis by (auto simp: make_row_am_def)
qed

lemma draw_row_None:
  "draw_row float_text stdscr idx pid name cpu None disk = Inl TypeError"
  by (simp add: draw_row_def format_row_None)

lemma get_size_top:
  assumes "1024 ^ 6 \<le> n"
  shows "get_size n = (if finite_double (fl (of_int n / 1024)) then Inr None else Inl OverflowError)"
proof -
  from assms have big: "\<not> n < 1024" by simp
  have "(of_int (1024 ^ 6) :: rat) \<le> of_int n" using assms by (simp only: of_int_le_iff)
  then have "(2::rat) ^ 50 * 1024 \<le> of_int n" by simp
  then have "(2::rat) ^ 50 \<le> of_int n / 1024" by (simp add: pos_le_divide_eq)
  then have "(2::rat) ^ 50 \<le> fl (of_int n / 1024)" by (rule fl_ge_pow2)
  moreover have "10 * length (tl units) = 50" by (simp add: units_def)
  ultimately have "(2::rat) ^ (10 * length (tl units)) \<le> fl (of_int n / 1024)" by (simp only:)
  then have rest: "get_size_loop (PyFloat (fl (of_int n / 1024))) (tl units) ''B'' = Inr None"
    by (rule get_size_loop_float_None)
  have u: "units = '''' # tl units" by (simp add: units_def)
  show ?thesis
  proof (cases "finite_double (fl (of_int n / 1024))")
    case True
    then have "truediv (PyInt n) 1024 = Inr (PyFloat (fl (of_int n / 1024)))" by simp
    then have "get_size_loop (PyInt n) ('''' # tl units) ''B'' =
               get_size_loop (PyFloat (fl (of_int n / 1024))) (tl units) ''B''"
      using big by (simp del: truediv.simps)
    with rest u True show ?thesis by (simp only: get_size_def if_True)
  next
    case False
    then have "truediv (PyInt n) 1024 = Inl OverflowError" by simp
    then have "get_size_loop (PyInt n) ('''' # tl units) ''B'' = Inl OverflowError"
      using big by (simp del: truediv.simps)
    with u False show ?thesis by (simp only: get_size_def if_False)
  qed
qed

subsection \<open>C10: get_size at the top of its range\<close>

text \<open>
  C10, as the code has it. For every int \<open>n\<close> from \<open>1024^6\<close> on, \<open>get_size\<close> returns no
  text: the result is \<open>None\<close> when the quotient \<open>n / 1024\<close> is a finite double and the
  \<open>OverflowError\<close> of that division otherwise. For \<open>n < 2^1024\<close>, so for every 64-bit
  byte count from \<open>1024^6\<close> on, the unit loop is exhausted and the result is \<open>None\<close>. The
  \<open>R: ... W: ...\<close> text of \<open>system_monitor.py\<close> interpolates the result with no format
  specification and shows the literal \<open>None\<close>. The memory column of the process row, in
  both variants, is formatted with \<open><10\<close>, which \<open>None\<close> does not accept: drawing the row
  of a process with such a resident size raises \<open>TypeError\<close>.
\<close>

theorem get_size_exhausted:
  assumes "1024 ^ 6 \<le> n"
  shows "get_size n = (if finite_double (fl (of_int n / 1024)) then Inr None else Inl OverflowError) \<and>
         (n < 2 ^ 1024 \<longrightarrow>
            get_size n = Inr None \<and>
            (\<forall>wr total_io t. disk_usage_text n wr total_io = Inr t \<longrightarrow>
               (\<exists>rest. t = ''R: None W: '' @ rest)) \<and>
            (\<forall>total_io p r float_text stdscr idx rest.
               info_rss p = n \<and> make_row_sm total_io p = Inr r \<longrightarrow>
               draw_rows_sm float_text stdscr ((idx, r) # rest) = Inl TypeError) \<and>
            (\<forall>p r float_text stdscr idx rest.
               info_rss p = n \<and> make_row_am p = Inr r \<longrightarrow>
               draw_rows_am float_text stdscr ((idx, r) # rest) = Inl TypeError))"
proof -
  have top: "get_size n = (if finite_double (fl (of_int n / 1024)) then Inr None else Inl OverflowError)"
    using assms by (rule get_size_top)
  have rest: "get_size n = Inr None \<and>
            (\<forall>wr total_io t. disk_usage_text n wr total_io = Inr t \<longrightarrow>
               (\<exists>rest. t = ''R: None W: '' @ rest)) \<and>
            (\<forall>total_io p r float_text stdscr idx rest.
               info_rss p = n \<and> make_row_sm total_io p = Inr r \<longrightarrow>
               draw_rows_sm float_text stdscr ((idx, r) # rest) = Inl TypeError) \<and>
            (\<forall>p r float_text stdscr idx rest.
               info_rss p = n \<and> make_row_am p = Inr r \<longrightarrow>
               draw_rows_am float_text stdscr ((idx, r) # rest) = Inl TypeError)"
    if small: "n < 2 ^ 1024"
  proof -
    have none: "get_size n = Inr None" using assms small by (rule get_size_None)
    have a: "\<exists>rest. t = ''R: None W: '' @ rest"
      if "disk_usage_text n wr total_io = Inr t" for wr total_io t
      using none that by (rule disk_usage_text_None)
    have b: "draw_rows_sm float_text stdscr ((idx, r) # rest) = Inl TypeError"
      if "info_rss p = n \<and> make_row_sm total_io p = Inr r" for total_io p r float_text stdscr idx rest
    proof -
      from that none have "sm_memory_usage r = None"
        by (intro make_row_sm_memory_None [of p total_io]) simp_all
      then show ?thesis by (simp add: draw_row_None)
    qed
    have c: "draw_rows_am float_text stdscr ((idx, r) # rest) = Inl TypeError"
      if "info_rss p = n \<and> make_row_am p = Inr r" for p r float_text stdscr idx rest
    proof -
      from that none have "am_memory_usage r = None"
        by (intro make_row_am_memory_None [of p]) simp_all
      then show ?thesis by (simp add: draw_row_None)
    qed
    from none a b c show ?thesis by blast
  qed
  from top rest show ?thesis by blast
qed

theorem get_size_exhausted_witness:
  "(1024::int) ^ 6 \<le> 2 ^ 60 \<and> (2::int) ^ 60 < 2 ^ 1024 \<and> get_size (2 ^ 60) = Inr None \<and>
   disk_usage_text (2 ^ 60) 0 0 = Inr ''R: None W: 0.00B | %: 0.00%''"
proof -
  have h1: "(1024::int) ^ 6 \<le> 2 ^ 60" by simp
  have h2: "(2::int) ^ 60 < 2 ^ 1024" by simp
  from get_size_exhausted [OF h1] h2 have "get_size (2 ^ 60) = Inr None" by blast
  with h1 h2 io_text_2_60 show ?thesis by blast
qed

text \<open>
  A process with a resident size of \<open>2^60\<close> bytes and no I/O counters. Its memory text is
  \<open>None\<close>, and the table loop of either variant raises \<open>TypeError\<close> at its row instead of
  showing the text \<open>None\<close> (the text of the float is immaterial: the exception comes
  after it). \<open>another_monitor.py\<close> never draws the text it keeps at index 5 of the row.
\<close>

definition proc_huge :: proc_info where
  "proc_huge = \<lparr>info_pid = 3, info_name = Some ''db'', info_cpu_percent = 0, info_rss = 2 ^ 60,
                info_io_counters = None\<rparr>"

theorem get_size_exhausted_counterexample:
  "(1024::int) ^ 6 \<le> info_rss proc_huge \<and>
   make_row_sm 0 proc_huge =
     Inr \<lparr>sm_pid = 3, sm_name = ''db'', sm_cpu_percent = 0, sm_memory_usage = None,
          sm_disk_usage = ''R: 0.00B W: 0.00B | %: 0.00%'', sm_process_io = 0\<rparr> \<and>
   draw_rows_sm fmt2 \<lparr>scr_height = 24, scr_width = 120, scr_drawn = []\<rparr>
     [(12, \<lparr>sm_pid = 3, sm_name = ''db'', sm_cpu_percent = 0, sm_memory_usage = None,
            sm_disk_usage = ''R: 0.00B W: 0.00B | %: 0.00%'', sm_process_io = 0\<rparr>)] = Inl TypeError \<and>
   make_row_am proc_huge =
     Inr \<lparr>am_pid = 3, am_name = ''db'', am_cpu_percent = 0, am_memory_usage = None,
          am_memory_percent = 2 ^ 60, am_disk_usage = Some ''0B'', am_disk_bytes = 0\<rparr> \<and>
   draw_rows_am fmt2 \<lparr>scr_height = 24, scr_width = 120, scr_drawn = []\<rparr>
     [(9, \<lparr>am_pid = 3, am_name = ''db'', am_cpu_percent = 0, am_memory_usage = None,
           am_memory_percent = 2 ^ 60, am_disk_usage = Some ''0B'', am_disk_bytes = 0\<rparr>)] = Inl TypeError"
  by code_simp

subsection \<open>C6: the toggle-sort key\<close>

text \<open>
  Collaborators used in the examples: a host where no process has the pid, and a host
  where every process belongs to another user.
\<close>

definition no_such_process :: "int \<Rightarrow> error + unit" where
  \<comment> \<open>a process-control collaborator on a host where no process has the pid\<close>
  "no_such_process pid = Inl NoSuchProcess"


lemma ord_keys:
  "ord CHR ''s'' \<noteq> ord CHR ''q''" "ord CHR ''s'' \<noteq> ord CHR ''f''" "ord CHR ''s'' \<noteq> ord CHR ''p''"
  "ord CHR ''k'' \<noteq> ord CHR ''q''" "ord CHR ''k'' \<noteq> ord CHR ''f''" "ord CHR ''k'' \<noteq> ord CHR ''p''"
  "ord CHR ''k'' \<noteq> ord CHR ''s''" "ord CHR ''k'' \<noteq> ord CHR ''a''"
  by (simp_all add: ord_def)

lemma upper_memory: "upper ''memory'' = ''MEMORY''" by code_simp
lemma upper_cpu: "upper ''cpu'' = ''CPU''" by code_simp

text \<open>
  C6, as the code has it. The key \<open>s\<close> flips \<open>sort_by\<close> between \<open>cpu\<close> and \<open>memory\<close> and sets
  the status message to name the new key, and the loop continues. In
  \<open>system_monitor.py\<close> every other variable of the view state (\<open>ascending\<close>,
  \<open>filter_name\<close>, \<open>filter_pid\<close>) keeps its value. In \<open>another_monitor.py\<close> the same key
  also resets \<open>filter_pid\<close> to \<open>None\<close>; \<open>ascending\<close> keeps its value.
\<close>

theorem toggle_sort:
  "handle_key_sm terminate (ord CHR ''s'') typed st =
     Inr (Some (st\<lparr>sm_sort_by := (if sm_sort_by st = ''cpu'' then ''memory'' else ''cpu''),
                   sm_last_message :=
                     (if sm_sort_by st = ''cpu'' then ''Sorting by Memory'' else ''Sorting by CPU'')\<rparr>)) \<and>
   handle_key_am terminate' (ord CHR ''s'') typed' st' =
     Inr (Some (st'\<lparr>am_sort_by := (if am_sort_by st' = ''cpu'' then ''memory'' else ''cpu''),
                    am_filter_pid := None,
                    am_last_message :=
                      (if am_sort_by st' = ''cpu'' then ''Sorting by MEMORY'' else ''Sorting by CPU'')\<rparr>))"
  by (simp add: handle_key_sm_def handle_key_am_def ord_keys Let_def upper_memory upper_cpu)

text \<open>
  In \<open>another_monitor.py\<close> a PID filter of 5 is gone after the key \<open>s\<close>.
\<close>

theorem toggle_sort_counterexample:
  "handle_key_am no_such_process (ord CHR ''s'') (Inr '''')
     \<lparr>am_sort_by = ''cpu'', am_ascending = False, am_filter_pid = Some 5, am_last_message = ''''\<rparr> =
   Inr (Some \<lparr>am_sort_by = ''memory'', am_ascending = False, am_filter_pid = None,
              am_last_message = ''Sorting by MEMORY''\<rparr>)"
  by code_simp

subsection \<open>C3: the kill command\<close>






lemma py_int_separator: "py_int [char_of (29::nat), CHR ''5''] = Inl ValueError"
  by code_simp

lemma py_int_blanks: "py_int '' 12_3 '' = Inr 123" by code_simp




subsection \<open>C1: sorting by memory\<close>

text \<open>
  Two processes: the first with the larger resident size and no I/O, the second with
  the smaller resident size and nine bytes read.
\<close>

definition proc_a :: proc_info where
  "proc_a = \<lparr>info_pid = 1, info_name = Some ''editor'', info_cpu_percent = 1, info_rss = 2000,
             info_io_counters = Some \<lparr>read_bytes = 0, write_bytes = 0\<rparr>\<rparr>"

definition proc_b :: proc_info where
  "proc_b = \<lparr>info_pid = 2, info_name = Some ''logger'', info_cpu_percent = 2, info_rss = 1000,
             info_io_counters = Some \<lparr>read_bytes = 9, write_bytes = 0\<rparr>\<rparr>"

text \<open>
  C1 at this input, highest first. \<open>another_monitor.py\<close> returns the process with the
  larger resident size first. \<open>system_monitor.py\<close> sorts on index 4 of its row, the
  formatted disk text, and returns the process with the smaller resident size first.
\<close>

theorem sort_by_memory_example:
  "map info_rss [proc_a, proc_b] = [2000, 1000] \<and>
   map_sum id (map sm_pid)
     (get_processes_info_sm ''memory'' False
        [Inr \<lparr>read_bytes = 0, write_bytes = 0\<rparr>, Inr \<lparr>read_bytes = 9, write_bytes = 0\<rparr>]
        [proc_a, proc_b]) = Inr [2, 1] \<and>
   map_sum id (map sm_disk_usage)
     (get_processes_info_sm ''memory'' False
        [Inr \<lparr>read_bytes = 0, write_bytes = 0\<rparr>, Inr \<lparr>read_bytes = 9, write_bytes = 0\<rparr>]
        [proc_a, proc_b]) = Inr [''R: 9.00B W: 0.00B | %: 100.00%'', ''R: 0.00B W: 0.00B | %: 0.00%''] \<and>
   map_sum id (map am_pid) (get_processes_info_am ''memory'' False [proc_a, proc_b]) = Inr [1, 2]"
  by code_simp

subsection \<open>C2: display_bar outside the window\<close>

text \<open>
  C2 at a window of two lines and at a window of ten columns. A bar for line 2 of a
  window with lines 0 and 1 raises \<open>curses.error\<close>; a bar in a window narrower than
  twenty columns raises \<open>ValueError\<close>; the loop of either variant draws its disk bar on
  line 2 with no guard, and the exception leaves it.
\<close>

theorem display_bar_example:
  "display_bar \<lparr>scr_height = 2, scr_width = 80, scr_drawn = []\<rparr> 50 ''Disk  '' 2 80 100 = Inl CursesError \<and>
   display_bar \<lparr>scr_height = 24, scr_width = 10, scr_drawn = []\<rparr> 50 ''CPU Usage'' 0 10 100 = Inl ValueError \<and>
   draw_bars_am \<lparr>scr_height = 2, scr_width = 80, scr_drawn = []\<rparr> 50 50
     \<lparr>du_total = 1000, du_used = 500, du_percent = 50\<rparr> = Inl CursesError \<and>
   draw_bars_sm \<lparr>scr_height = 2, scr_width = 80, scr_drawn = []\<rparr> 50 50
     [Inr \<lparr>read_bytes = 1, write_bytes = 1\<rparr>] \<lparr>du_total = 1000, du_used = 500, du_percent = 50\<rparr> =
     Inl CursesError"
  by code_simp

subsection \<open>C4: the value of the disk bar\<close>

text \<open>
  C4 at a disk of 1024 bytes and one process that has read 1024 and written 1024 bytes.
  The disk bar of \<open>system_monitor.py\<close> shows the bytes of process I/O as a percentage of
  the capacity, here 200, whatever part of the disk is used.
\<close>

theorem disk_bar_example:
  "total_disk_usage_percentage [Inr \<lparr>read_bytes = 1024, write_bytes = 1024\<rparr>] 1024 = Inr 200 \<and>
   bar_text 200 ''Disk  '' 40 100 = Inr ''Disk  : [||||||||||||||||||||] 200.00%''"
  by code_simp

subsection \<open>C5: the rows of the process table\<close>

text \<open>
  C5 at a window one line too low for the table, with one core and three processes:
  14 lines in \<open>system_monitor.py\<close>, 11 lines in \<open>another_monitor.py\<close>. The number of rows is
  \<open>-1\<close>, the slice \<open>processes[:-1]\<close> drops the last process only, and the loop draws two
  rows, both on lines inside the window.
\<close>

theorem displayed_processes_example:
  "max_displayable_processes 14 (header_start_row_sm 1) [''row 1'', ''row 2'', ''row 3''] = - 1 \<and>
   displayed_processes 14 (header_start_row_sm 1) [''row 1'', ''row 2'', ''row 3''] =
     [(12, ''row 1''), (13, ''row 2'')] \<and>
   max_displayable_processes 11 (header_start_row_am 1) [''row 1'', ''row 2'', ''row 3''] = - 1 \<and>
   displayed_processes 11 (header_start_row_am 1) [''row 1'', ''row 2'', ''row 3''] =
     [(9, ''row 1''), (10, ''row 2'')]"
  by code_simp

end
